theory Spec2Isabelle
  imports
    Main
    "HOL-Library.Char_ord"
    "HOL-Library.List_Lexorder"
    "HOL-Library.Monad_Syntax"
    "HOL-Library.Word"
begin

section \<open>Strings: whitespace, trim and split (negotiate.h)\<close>

text \<open>
  \<^verbatim>\<open>std::string\<close> is a \<open>string\<close> (a list of bytes). Its \<open><\<close> is the lexicographic order
  on the byte values, a proper prefix being smaller: the order of \<open>List_Lexorder\<close> over
  \<open>Char_ord\<close>.

  \<^verbatim>\<open>isspace\<close> wraps \<^verbatim>\<open>std::isspace\<close>; in the "C" locale the whitespace characters are the
  space and the five controls HT, LF, VT, FF and CR.
\<close>

definition isspace :: "char \<Rightarrow> bool" where
  "isspace c \<longleftrightarrow> c \<in> {CHR '' '', CHR 0x09, CHR 0x0A, CHR 0x0B, CHR 0x0C, CHR 0x0D}"

text \<open>
  \<^verbatim>\<open>trim\<close> builds \<^verbatim>\<open>std::string(first, last)\<close>, where \<open>first\<close> is the position of the first
  character that is not whitespace (searched from the front) and \<open>last\<close> is one past the
  last such character (searched from the back). On a string that is not empty and holds
  whitespace only, \<open>first\<close> is the end and \<open>last\<close> is the beginning: the range is inverted,
  which the string constructor does not accept (undefined behaviour; the usual standard
  libraries throw \<^verbatim>\<open>std::length_error\<close>). That outcome is \<open>None\<close>.
\<close>

definition trim :: "string \<Rightarrow> string option" where
  "trim s =
     (let first = length (takeWhile isspace s);
          last = length s - length (takeWhile isspace (rev s))
      in if last < first then None else Some (take (last - first) (drop first s)))"

text \<open>
  The loop of \<^verbatim>\<open>split\<close>: \<^verbatim>\<open>std::getline(stream, item, sep)\<close> reads up to the next separator
  (which it consumes) or to the end of the input, and fails once nothing is left to read.
  So a separator at the very end does not open a further, empty item, and the empty
  string has no item at all.
\<close>

function getlines :: "char \<Rightarrow> string \<Rightarrow> string list" where
  "getlines sep [] = []"
| "getlines sep (c # cs) =
     takeWhile (\<lambda>x. x \<noteq> sep) (c # cs) # getlines sep (drop 1 (dropWhile (\<lambda>x. x \<noteq> sep) (c # cs)))"
  by pat_completeness auto
termination
  by (relation "measure (\<lambda>(sep, s). length s)")
     (auto simp: less_Suc_eq_le intro: le_trans [OF diff_le_self length_dropWhile_le])

definition split :: "string \<Rightarrow> char \<Rightarrow> string list option" where
  "split list sep = those (map trim (getlines sep list))"

section \<open>Regular expressions as \<^verbatim>\<open>std::regex_match\<close> runs them\<close>

text \<open>
  The two patterns of the program use literals, the dot, \<^verbatim>\<open>\s\<close>, bracket classes,
  greedy repetition of a single-character atom, an optional group, and capture groups.
  The matcher is the backtracking one of ECMAScript: every construct lists the ways it
  can match a prefix of the input, the preferred way first, and \<^verbatim>\<open>regex_match\<close> takes the
  first way that consumes the whole input.

  The dot matches every character but the line terminators LF and CR; \<^verbatim>\<open>\s\<close> is the
  whitespace class of the locale, the same six characters as \<^const>\<open>isspace\<close>.
\<close>

datatype cls = Lit char | Dot | Space | Range char char

fun cls_match :: "cls \<Rightarrow> char \<Rightarrow> bool" where
  "cls_match (Lit c) x = (x = c)"
| "cls_match Dot x = (x \<noteq> CHR 0x0A \<and> x \<noteq> CHR 0x0D)"
| "cls_match Space x = isspace x"
| "cls_match (Range lo hi) x = (lo \<le> x \<and> x \<le> hi)"

datatype rx =
    Atom cls
  | Rep cls nat "nat option"
  | Seq rx rx
  | Opt rx
  | Grp nat rx

type_synonym smatch = "nat \<rightharpoonup> string"

fun rx_run :: "rx \<Rightarrow> string \<times> smatch \<Rightarrow> (string \<times> smatch) list" where
  "rx_run (Atom c) (s, g) =
     (case s of [] \<Rightarrow> [] | x # xs \<Rightarrow> if cls_match c x then [(xs, g)] else [])"
| "rx_run (Rep c lo hi) (s, g) =
     (let n = length (takeWhile (cls_match c) s);
          top = (case hi of None \<Rightarrow> n | Some h \<Rightarrow> min h n)
      in map (\<lambda>k. (drop k s, g)) (rev [lo ..< Suc top]))"
| "rx_run (Seq a b) st = concat (map (rx_run b) (rx_run a st))"
| "rx_run (Opt a) st = rx_run a st @ [st]"
| "rx_run (Grp i a) (s, g) =
     map (\<lambda>(r, g'). (r, g'(i \<mapsto> take (length s - length r) s))) (rx_run a (s, g))"

definition regex_match :: "string \<Rightarrow> rx \<Rightarrow> smatch option" where
  "regex_match s r = map_option snd (find (\<lambda>(rest, g). rest = []) (rx_run r (s, Map.empty)))"

text \<open>The group of index \<open>i\<close> as a string; a group that took no part in the match is empty.\<close>

definition sub_match :: "smatch \<Rightarrow> nat \<Rightarrow> string" where
  "sub_match g i = (case g i of None \<Rightarrow> [] | Some s \<Rightarrow> s)"

fun lits :: "string \<Rightarrow> rx \<Rightarrow> rx" where
  "lits [] r = r"
| "lits (c # cs) r = Seq (Atom (Lit c)) (lits cs r)"

abbreviation digit :: cls where
  "digit \<equiv> Range (CHR ''0'') (CHR ''9'')"

section \<open>The quality of a q= segment: single precision arithmetic\<close>

text \<open>
  The constructor computes \<^verbatim>\<open>std::floor(std::stof(text) * 1000)\<close> in \<^verbatim>\<open>float\<close>. The text is
  one of the 2000 decimals matched by \<^verbatim>\<open>[01](\.[0-9]{0,3})?\<close>. The model follows IEEE 754
  binary32 with integers: \<^verbatim>\<open>stof\<close> rounds the decimal to the nearest value with a 24 bit
  significand (ties to even), the product with 1000 is rounded the same way, and the
  floor is taken. A binary32 value that is not negative is kept as a fraction of two
  integers.
\<close>

definition rne :: "int \<Rightarrow> int \<Rightarrow> int" where
  "rne n d =
     (let fl = n div d; r = n mod d
      in if 2 * r < d then fl else if d < 2 * r then fl + 1
         else if even fl then fl else fl + 1)"

function bitlen :: "int \<Rightarrow> int" where
  "bitlen n = (if n \<le> 0 then 0 else 1 + bitlen (n div 2))"
  by pat_completeness auto
termination
  by (relation "measure nat") auto

declare bitlen.simps [simp del]

text \<open>\<open>ilog2 n d\<close> is the exponent \<open>e\<close> with \<open>2 ^ e \<le> n / d < 2 ^ (e + 1)\<close>, for \<open>n, d > 0\<close>.\<close>

definition ge_pow2 :: "int \<Rightarrow> int \<Rightarrow> int \<Rightarrow> bool" where
  "ge_pow2 n d e \<longleftrightarrow> (if 0 \<le> e then d * 2 ^ nat e \<le> n else d \<le> n * 2 ^ nat (- e))"

definition ilog2 :: "int \<Rightarrow> int \<Rightarrow> int" where
  "ilog2 n d =
     (let e = bitlen n - bitlen d
      in if ge_pow2 n d e then e else e - 1)"

definition round32 :: "int \<times> int \<Rightarrow> int \<times> int" where
  "round32 x =
     (case x of (n, d) \<Rightarrow>
        if n = 0 then (0, 1)
        else let s = 23 - ilog2 n d
             in if 0 \<le> s then (rne (n * 2 ^ nat s) d, 2 ^ nat s)
                else (rne n (d * 2 ^ nat (- s)) * 2 ^ nat (- s), 1))"

definition digit_val :: "char \<Rightarrow> int" where
  "digit_val c = int (of_char c) - 48"

definition decimal :: "string \<Rightarrow> int" where
  "decimal s = foldl (\<lambda>n c. 10 * n + digit_val c) 0 s"

text \<open>The decimal \<^verbatim>\<open>D\<close>, \<^verbatim>\<open>D.\<close> or \<^verbatim>\<open>D.DDD\<close> as a fraction.\<close>

definition stof :: "string \<Rightarrow> int \<times> int" where
  "stof s =
     (let ip = takeWhile (\<lambda>c. c \<noteq> CHR ''.'') s;
          fp = drop 1 (dropWhile (\<lambda>c. c \<noteq> CHR ''.'') s)
      in round32 (decimal (ip @ fp), 10 ^ length fp))"

definition quality_of :: "string \<Rightarrow> int" where
  "quality_of s =
     (case round32 (fst (stof s) * 1000, snd (stof s)) of (n, d) \<Rightarrow> n div d)"

section \<open>qvalue (negotiate.h)\<close>

text \<open>
  The class \<^verbatim>\<open>qvalue\<close>. The member \<^verbatim>\<open>value\<close> is the field \<open>qvalue_value\<close>. A
  \<^verbatim>\<open>std::set<std::string>\<close> is the ascending list of its elements without duplicates, so
  that two sets are equal when the lists are and \<^verbatim>\<open>size()\<close> is the length. The member
  \<^verbatim>\<open>q\<close> is an \<^verbatim>\<open>int\<close>; the constructor keeps it in 0..1000, where no arithmetic of the
  program leaves the range of the type.
\<close>

record qvalue =
  qvalue_value :: string
  attributes :: "string list"
  extensions :: "string list"
  q :: int

fun set_insert :: "string \<Rightarrow> string list \<Rightarrow> string list" where
  "set_insert x [] = [x]"
| "set_insert x (y # ys) =
     (if x < y then x # y # ys else if x = y then y # ys else y # set_insert x ys)"

text \<open>The pattern \<^verbatim>\<open>q\s*=\s*([01](\.[0-9]{0,3})?)\<close>.\<close>

definition rx :: rx where
  "rx = Seq (Atom (Lit (CHR ''q''))) (Seq (Rep Space 0 None) (Seq (Atom (Lit (CHR ''='')))
          (Seq (Rep Space 0 None)
             (Grp 1 (Seq (Atom (Range (CHR ''0'') (CHR ''1'')))
                (Opt (Grp 2 (Seq (Atom (Lit (CHR ''.''))) (Rep digit 0 (Some 3))))))))))"

text \<open>One round of the constructor's loop over the segments.\<close>

definition qvalue_step :: "string \<Rightarrow> qvalue \<Rightarrow> qvalue" where
  "qvalue_step s v =
     (if qvalue_value v = [] then v\<lparr>qvalue_value := s\<rparr>
      else if q v = - 1 then
        (case regex_match s rx of
           Some matches \<Rightarrow> v\<lparr>q := quality_of (sub_match matches 1)\<rparr>
         | None \<Rightarrow> v\<lparr>attributes := set_insert s (attributes v)\<rparr>)
      else v\<lparr>extensions := set_insert s (extensions v)\<rparr>)"

definition qvalue_init :: qvalue where
  "qvalue_init = \<lparr>qvalue_value = [], attributes = [], extensions = [], q = - 1\<rparr>"

definition qvalue_finish :: "qvalue \<Rightarrow> qvalue" where
  "qvalue_finish v =
     (let v' = (if qvalue_value v \<noteq> [] \<and> q v = - 1 then v\<lparr>q := 1000\<rparr> else v)
      in v'\<lparr>q := max (min (q v') 1000) 0\<rparr>)"

text \<open>The constructor \<^verbatim>\<open>qvalue(const std::string &val)\<close>; \<open>None\<close> when \<^verbatim>\<open>split\<close> fails.\<close>

definition qvalue :: "string \<Rightarrow> qvalue option" where
  "qvalue val =
     map_option (\<lambda>segs. qvalue_finish (fold qvalue_step segs qvalue_init))
       (split val (CHR '';''))"

text \<open>\<^verbatim>\<open>operator std::string\<close>: the value and its attributes, without the quality.\<close>

definition qvalue_string :: "qvalue \<Rightarrow> string" where
  "qvalue_string v =
     (if qvalue_value v \<noteq> [] then qvalue_value v @ concat (map (\<lambda>a. '';'' @ a) (attributes v))
      else qvalue_value v)"

definition hasWildcard :: "qvalue \<Rightarrow> bool option" where
  "hasWildcard v = map_option (\<lambda>a. ''*'' \<in> set a) (split (qvalue_value v) (CHR ''/''))"

text \<open>
  The loop of \<^verbatim>\<open>operator<\<close> over the sub-tags: the first index where the two differ
  decides, and when there is none up to the shorter length the shorter list is smaller.
\<close>

fun subtag_less :: "string list \<Rightarrow> string list \<Rightarrow> bool" where
  "subtag_less (x # xs) (y # ys) = (if x \<noteq> y then x < y else subtag_less xs ys)"
| "subtag_less [] ys = (ys \<noteq> [])"
| "subtag_less xs [] = False"

text \<open>\<^verbatim>\<open>operator<\<close>; \<open>None\<close> when a \<^verbatim>\<open>split\<close> on the way fails.\<close>

definition qvalue_less :: "qvalue \<Rightarrow> qvalue \<Rightarrow> bool option" where
  "qvalue_less a b =
     (if q a < q b then Some True
      else if q b < q a then Some False
      else if qvalue_value a = qvalue_value b \<and> length (attributes a) < length (attributes b)
      then Some True
      else do {
        sa \<leftarrow> split (qvalue_value a) (CHR ''/'');
        sb \<leftarrow> split (qvalue_value b) (CHR ''/'');
        if length sa \<noteq> length sb then Some (length sa < length sb)
        else if length sa = 2 then
          (if sa ! 0 = ''*'' then Some (sb ! 0 \<noteq> ''*'')
           else if sb ! 0 = ''*'' then Some False
           else if sa ! 0 = sb ! 0 then Some (sa ! 1 = ''*'')
           else Some (qvalue_string a < qvalue_string b))
        else if length sa = 1 then do {
          ta \<leftarrow> split (qvalue_value a) (CHR ''-'');
          tb \<leftarrow> split (qvalue_value b) (CHR ''-'');
          Some (subtag_less ta tb)
        }
        else Some (qvalue_string a < qvalue_string b)
      })"

text \<open>
  The loop of \<^verbatim>\<open>operator==\<close> over the components of two lists of the same length: a
  pair that differs with no \<^verbatim>\<open>*\<close> on either side ends it with false.
\<close>

fun components_match :: "string list \<Rightarrow> string list \<Rightarrow> bool" where
  "components_match (x # xs) (y # ys) =
     (if x \<noteq> y \<and> x \<noteq> ''*'' \<and> y \<noteq> ''*'' then False else components_match xs ys)"
| "components_match xs ys = True"

text \<open>\<^verbatim>\<open>operator==\<close>; \<open>None\<close> when a \<^verbatim>\<open>split\<close> on the way fails.\<close>

definition qvalue_eq :: "qvalue \<Rightarrow> qvalue \<Rightarrow> bool option" where
  "qvalue_eq a b =
     (if qvalue_value a = qvalue_value b \<and> attributes a = attributes b then Some True
      else do {
        aw \<leftarrow> hasWildcard a;
        bw \<leftarrow> hasWildcard b;
        if aw = bw then Some False
        else do {
          sa \<leftarrow> split (qvalue_value a) (CHR ''/'');
          sb \<leftarrow> split (qvalue_value b) (CHR ''/'');
          if length sa = length sb \<and> sa \<noteq> [] then Some (components_match sa sb)
          else Some False
        }
      })"

text \<open>
  Elements of the sets in the examples below, each as the constructor makes it of its
  string: \<^verbatim>\<open>en\<close>, \<^verbatim>\<open>en-US\<close>, \<^verbatim>\<open>fr\<close>, \<^verbatim>\<open>en;q=0.5\<close>, \<^verbatim>\<open>text/*\<close>, \<^verbatim>\<open>text/*;a\<close>, \<^verbatim>\<open>*/*\<close>,
  \<^verbatim>\<open>en;q=1;a\<close> and \<^verbatim>\<open>en;q=1;b\<close>.
\<close>

definition qv_en :: qvalue where
  "qv_en = \<lparr>qvalue_value = ''en'', attributes = [], extensions = [], q = 1000\<rparr>"

definition qv_en_US :: qvalue where
  "qv_en_US = \<lparr>qvalue_value = ''en-US'', attributes = [], extensions = [], q = 1000\<rparr>"

definition qv_fr :: qvalue where
  "qv_fr = \<lparr>qvalue_value = ''fr'', attributes = [], extensions = [], q = 1000\<rparr>"

definition qv_en_half :: qvalue where
  "qv_en_half = \<lparr>qvalue_value = ''en'', attributes = [], extensions = [], q = 500\<rparr>"

definition qv_text_any :: qvalue where
  "qv_text_any = \<lparr>qvalue_value = ''text/*'', attributes = [], extensions = [], q = 1000\<rparr>"

definition qv_text_any_a :: qvalue where
  "qv_text_any_a = \<lparr>qvalue_value = ''text/*'', attributes = [''a''], extensions = [], q = 1000\<rparr>"

definition qv_any :: qvalue where
  "qv_any = \<lparr>qvalue_value = ''*/*'', attributes = [], extensions = [], q = 1000\<rparr>"

definition qv_en_a :: qvalue where
  "qv_en_a = \<lparr>qvalue_value = ''en'', attributes = [], extensions = [''a''], q = 1000\<rparr>"

definition qv_en_b :: qvalue where
  "qv_en_b = \<lparr>qvalue_value = ''en'', attributes = [], extensions = [''b''], q = 1000\<rparr>"

section \<open>negotiate (negotiate.h)\<close>

text \<open>
  A \<^verbatim>\<open>std::set<qvalue>\<close> is the list of its elements in the order of iteration. The set
  finds the place of a new element with \<^verbatim>\<open>operator<\<close> and leaves itself unchanged when
  it meets an element that is neither smaller nor greater. The model walks the sequence
  from the front; on a set of no element nothing is compared.
\<close>

fun qset_insert :: "qvalue \<Rightarrow> qvalue list \<Rightarrow> qvalue list option" where
  "qset_insert k [] = Some [k]"
| "qset_insert k (e # es) = do {
     lt \<leftarrow> qvalue_less k e;
     if lt then Some (k # e # es)
     else do {
       gt \<leftarrow> qvalue_less e k;
       if gt then map_option ((#) e) (qset_insert k es) else Some (e # es)
     }
   }"

text \<open>\<^verbatim>\<open>a.q * b.q / 1000\<close> on \<^verbatim>\<open>int\<close>: the quotient is truncated towards zero.\<close>

definition combined :: "int \<Rightarrow> int \<Rightarrow> int" where
  "combined x y = (let p = x * y in if 0 \<le> p then p div 1000 else - ((- p) div 1000))"

text \<open>The scan of \<^verbatim>\<open>mine\<close> from the highest element down, when \<^verbatim>\<open>theirs\<close> is empty.\<close>

fun first_plain :: "qvalue list \<Rightarrow> string option" where
  "first_plain [] = Some []"
| "first_plain (v # vs) = do {
     w \<leftarrow> hasWildcard v;
     if \<not> w then Some (qvalue_string v) else first_plain vs
   }"

text \<open>The inner loop over \<^verbatim>\<open>mine\<close> for one \<open>a\<close> of \<^verbatim>\<open>theirs\<close>; \<open>acc\<close> is the set \<^verbatim>\<open>is\<close>.\<close>

fun intersect_inner :: "qvalue \<Rightarrow> qvalue list \<Rightarrow> qvalue list \<Rightarrow> qvalue list option" where
  "intersect_inner a [] acc = Some acc"
| "intersect_inner a (b # bs) acc = do {
     m \<leftarrow> qvalue_eq a b;
     if m then do {
       aw \<leftarrow> hasWildcard a;
       acc' \<leftarrow>
         (if aw then qset_insert (b\<lparr>q := combined (q a) (q b)\<rparr>) acc
          else do {
            bw \<leftarrow> hasWildcard b;
            if bw then qset_insert (a\<lparr>q := combined (q a) (q b)\<rparr>) acc
            else qset_insert (b\<lparr>q := combined (q a) (q b)\<rparr>) acc
          });
       intersect_inner a bs acc'
     }
     else intersect_inner a bs acc
   }"

fun intersect :: "qvalue list \<Rightarrow> qvalue list \<Rightarrow> qvalue list \<Rightarrow> qvalue list option" where
  "intersect [] mine acc = Some acc"
| "intersect (a # as) mine acc = do {
     acc' \<leftarrow> intersect_inner a mine acc;
     intersect as mine acc'
   }"

text \<open>
  \<^verbatim>\<open>negotiate(std::set<qvalue>, std::set<qvalue>)\<close>. The highest element of a set is the
  last of its sequence, and the reverse iteration starts there.
\<close>

definition negotiate :: "qvalue list \<Rightarrow> qvalue list \<Rightarrow> string option" where
  "negotiate theirs mine =
     (if length mine = 0 then Some []
      else if length theirs = 0 then first_plain (rev mine)
      else do {
        acc \<leftarrow> intersect theirs mine [];
        if length acc = 0 then Some [] else Some (qvalue_string (last acc))
      })"

text \<open>The construction \<^verbatim>\<open>std::set<qvalue>(v.begin(), v.end())\<close> from a vector of strings.\<close>

fun qset_of :: "string list \<Rightarrow> qvalue list \<Rightarrow> qvalue list option" where
  "qset_of [] acc = Some acc"
| "qset_of (s # ss) acc = do {
     v \<leftarrow> qvalue s;
     acc' \<leftarrow> qset_insert v acc;
     qset_of ss acc'
   }"

text \<open>The overloads on vectors of strings and on comma separated strings.\<close>

definition negotiate_vector :: "string list \<Rightarrow> string list \<Rightarrow> string option" where
  "negotiate_vector theirs mine = do {
     t \<leftarrow> qset_of theirs [];
     m \<leftarrow> qset_of mine [];
     negotiate t m
   }"

definition negotiate_string :: "string \<Rightarrow> string \<Rightarrow> string option" where
  "negotiate_string theirs mine = do {
     t \<leftarrow> split theirs (CHR '','');
     m \<leftarrow> split mine (CHR '','');
     negotiate_vector t m
   }"

section \<open>statusLine (http-status.h)\<close>

text \<open>
  The member \<^verbatim>\<open>code\<close> is an \<^verbatim>\<open>unsigned\<close>; the program compares and prints it and does no
  arithmetic on it, so it is a natural number here.

  The table \<^verbatim>\<open>http::status\<close> of http-constants.h is a parameter \<open>status\<close>, a map from
  codes to descriptions.
\<close>

record statusLine =
  code :: nat
  protocol :: string
  description :: string

definition statusDescription :: "(nat \<rightharpoonup> string) \<Rightarrow> nat \<Rightarrow> string" where
  "statusDescription status st =
     (case status st of Some d \<Rightarrow> d | None \<Rightarrow> ''Other Status'')"

text \<open>The pattern \<^verbatim>\<open>(HTTP/1.[01])\s+([0-9]{3})\s+(.*)\s*\<close> of the parsing constructor.\<close>

definition stat :: rx where
  "stat =
     Seq (Grp 1 (lits ''HTTP/1'' (Seq (Atom Dot) (Atom (Range (CHR ''0'') (CHR ''1''))))))
    (Seq (Rep Space 1 None)
    (Seq (Grp 2 (Rep digit 3 (Some 3)))
    (Seq (Rep Space 1 None)
    (Seq (Grp 3 (Rep Dot 0 None))
         (Rep Space 0 None)))))"

text \<open>The part of the pattern that follows the second group.\<close>

abbreviation (input) status_tail :: rx where
  "status_tail \<equiv> Seq (Rep Space 1 None) (Seq (Grp 3 (Rep Dot 0 None)) (Rep Space 0 None))"

text \<open>
  \<^verbatim>\<open>std::stoi\<close> on the second group, which is three decimal digits whenever the pattern
  has matched; \<open>None\<close> is the exception that the constructor catches.
\<close>

definition stoi :: "string \<Rightarrow> int option" where
  "stoi s =
     (if s \<noteq> [] \<and> list_all (cls_match digit) s then Some (decimal s) else None)"

definition statusLine_default :: statusLine where
  "statusLine_default = \<lparr>code = 0, protocol = [], description = []\<rparr>"

definition statusLine_parse :: "string \<Rightarrow> statusLine" where
  "statusLine_parse line =
     (case regex_match line stat of
        None \<Rightarrow> statusLine_default
      | Some matches \<Rightarrow>
          \<lparr>code = (case stoi (sub_match matches 2) of Some n \<Rightarrow> nat n | None \<Rightarrow> 500),
           protocol = sub_match matches 1,
           description = sub_match matches 3\<rparr>)"

definition statusLine_make :: "(nat \<rightharpoonup> string) \<Rightarrow> nat \<Rightarrow> string \<Rightarrow> statusLine" where
  "statusLine_make status pStatus pProtocol =
     \<lparr>code = pStatus, protocol = pProtocol, description = statusDescription status pStatus\<rparr>"

definition valid :: "statusLine \<Rightarrow> bool" where
  "valid l \<longleftrightarrow> code l \<ge> 100 \<and> code l < 600"

text \<open>The decimal digits that \<^verbatim>\<open>operator<<\<close> writes for an unsigned number.\<close>

definition digit_char :: "nat \<Rightarrow> char" where
  "digit_char d = char_of (48 + d)"

function show_nat :: "nat \<Rightarrow> string" where
  "show_nat n = (if n < 10 then [digit_char n] else show_nat (n div 10) @ [digit_char (n mod 10)])"
  by pat_completeness auto
termination
  by (relation "measure id") auto

declare show_nat.simps [simp del]

abbreviation CRLF :: string where
  "CRLF \<equiv> [CHR 0x0D, CHR 0x0A]"

text \<open>\<^verbatim>\<open>operator std::string\<close> of a status line.\<close>

definition statusLine_string :: "statusLine \<Rightarrow> string" where
  "statusLine_string l =
     (if \<not> valid l then ''HTTP/1.1 500 Bad Status Line'' @ CRLF
      else protocol l @ '' '' @ show_nat (code l) @ '' '' @ description l @ CRLF)"

text \<open>
  The pattern of the specification, \<^verbatim>\<open>^(HTTP/1\.[01])\s+([0-9]{3})\s+(.*)\s*$\<close>, where the dot
  of the protocol is a literal one.
\<close>

definition stat_spec :: rx where
  "stat_spec =
     Seq (Grp 1 (lits ''HTTP/1.'' (Atom (Range (CHR ''0'') (CHR ''1'')))))
    (Seq (Rep Space 1 None)
    (Seq (Grp 2 (Rep digit 3 (Some 3)))
    (Seq (Rep Space 1 None)
    (Seq (Grp 3 (Rep Dot 0 None))
         (Rep Space 0 None)))))"

section \<open>sessionData (http-session.h)\<close>

datatype status = stRequest | stContent | stShutdown

text \<open>
  The counters are \<^verbatim>\<open>std::size_t\<close>, words of 64 bits.
\<close>

record sessionData =
  session_status :: status
  requests :: "64 word"
  replies :: "64 word"
  contentLength :: "64 word"
  content :: string

text \<open>
  Modelled from the spec: \<^verbatim>\<open>sessionData::queries\<close> of http-session.h, which is not among
  the sources; the specification names it \<^verbatim>\<open>pendingTransactions()\<close>, the sum of
  \<^verbatim>\<open>requestsReceived\<close> and \<^verbatim>\<open>repliesSent\<close>.
\<close>

definition queries :: "sessionData \<Rightarrow> 64 word" where
  "queries v = requests v + replies v"

text \<open>
  Modelled from the spec: \<^verbatim>\<open>sessionData::generateReply\<close> of http-session.h, which is not
  among the sources. The status line in its wire form; for an informational status
  (100 to 199) only the blank line; otherwise \<^verbatim>\<open>Connection: close\<close> when the status is 400 or
  more, the \<^verbatim>\<open>Content-Length\<close> of the body, the headers of the caller in their order, the
  blank line and the body. The status is an \<^verbatim>\<open>int\<close>, converted to the \<^verbatim>\<open>unsigned\<close> of the
  status line.
\<close>

definition header_line :: "string \<times> string \<Rightarrow> string" where
  "header_line h = fst h @ '': '' @ snd h @ CRLF"

definition generateReply ::
    "(nat \<rightharpoonup> string) \<Rightarrow> int \<Rightarrow> (string \<times> string) list \<Rightarrow> string \<Rightarrow> string" where
  "generateReply status statusCode header body =
     statusLine_string (statusLine_make status (nat (statusCode mod 2 ^ 32)) ''HTTP/1.1'') @
     (if 100 \<le> statusCode \<and> statusCode \<le> 199 then CRLF
      else (if 400 \<le> statusCode then ''Connection: close'' @ CRLF else []) @
           ''Content-Length: '' @ show_nat (length body) @ CRLF @
           concat (map header_line header) @
           CRLF @ body)"

text \<open>
  The entries of \<^verbatim>\<open>http::status\<close> that the expected replies of session.cpp show.
\<close>

definition status_of_tests :: "nat \<rightharpoonup> string" where
  "status_of_tests = [100 \<mapsto> ''Continue'', 200 \<mapsto> ''OK'', 404 \<mapsto> ''Not Found'']"

section \<open>Properties of the match relation and of negotiate\<close>

lemma components_match_sym: "components_match xs ys = components_match ys xs"
  by (induction xs ys rule: components_match.induct) auto

text \<open>
  C10. \<^verbatim>\<open>operator==\<close> is symmetric: \<open>a == b\<close> and \<open>b == a\<close> have the same outcome, whether
  that is true, false, or the failure of a \<^verbatim>\<open>split\<close>.
\<close>

theorem qvalue_eq_sym: "qvalue_eq a b = qvalue_eq b a"
proof (cases "qvalue_value a = qvalue_value b \<and> attributes a = attributes b")
  case True
  then show ?thesis by (simp add: qvalue_eq_def)
next
  case False
  then have ne: "\<not> (qvalue_value b = qvalue_value a \<and> attributes b = attributes a)"
    by auto
  show ?thesis
    unfolding qvalue_eq_def hasWildcard_def using False ne
    by (cases "split (qvalue_value a) (CHR ''/'')"; cases "split (qvalue_value b) (CHR ''/'')")
       (auto simp: components_match_sym)
qed

text \<open>
  C1. The documentation of \<^verbatim>\<open>negotiate\<close> says that it never returns a value that has a
  wildcard. With \<^verbatim>\<open>*/*\<close> on both sides the two elements have the same value and the same
  attributes, \<^verbatim>\<open>operator==\<close> answers true before it looks at the wildcards, and the
  function returns \<^verbatim>\<open>*/*\<close>.
\<close>

theorem negotiate_returns_wildcard:
  "qvalue ''*/*'' = Some qv_any
   \<and> hasWildcard qv_any = Some True
   \<and> qvalue_eq qv_any qv_any = Some True
   \<and> negotiate [qv_any] [qv_any] = Some ''*/*''
   \<and> negotiate_vector [''*/*''] [''*/*''] = Some ''*/*''
   \<and> negotiate_string ''*/*'' ''*/*'' = Some ''*/*''"
  by code_simp

text \<open>
  C2. \<^verbatim>\<open>negotiate\<close> with the client set \<^verbatim>\<open>{"en-US"}\<close> and the server set \<^verbatim>\<open>{"en"}\<close> does
  not return \<^verbatim>\<open>"en"\<close>.
\<close>

theorem negotiate_en_US_en_counterexample:
  "negotiate_vector [''en-US''] [''en''] \<noteq> Some ''en''"
  by code_simp

text \<open>
  C2, as the program has it: the values \<^verbatim>\<open>en-US\<close> and \<^verbatim>\<open>en\<close> differ and neither has a
  wildcard, so \<^verbatim>\<open>operator==\<close> is false, nothing matches, and \<^verbatim>\<open>negotiate\<close> returns the empty
  string.
\<close>

theorem negotiate_en_US_en_empty:
  "qvalue ''en-US'' = Some qv_en_US
   \<and> qvalue ''en'' = Some qv_en
   \<and> hasWildcard qv_en_US = Some False
   \<and> hasWildcard qv_en = Some False
   \<and> qvalue_eq qv_en_US qv_en = Some False
   \<and> negotiate [qv_en_US] [qv_en] = Some []
   \<and> negotiate_vector [''en-US''] [''en''] = Some []
   \<and> negotiate_string ''en-US'' ''en'' = Some []"
  by code_simp

text \<open>
  C3. \<^verbatim>\<open>negotiate\<close> with an empty client set and the server set \<^verbatim>\<open>{"text/html;q=1"}\<close> does
  not return the empty string.
\<close>

theorem negotiate_empty_theirs_counterexample:
  "negotiate_vector [] [''text/html;q=1''] \<noteq> Some []"
  by code_simp

text \<open>
  C3, as the program has it: with nothing from the client, \<^verbatim>\<open>negotiate\<close> returns the highest
  element of the server set that has no wildcard, here \<^verbatim>\<open>text/html\<close>.
\<close>

theorem negotiate_empty_theirs_first_plain:
  "negotiate_vector [] [''text/html;q=1''] = Some ''text/html''
   \<and> negotiate_string [] ''text/html;q=1'' = Some ''text/html''"
  by code_simp

section \<open>Properties of the order of qvalues\<close>

lemma subtag_less_iff: "subtag_less xs ys \<longleftrightarrow> xs < ys"
proof (induction xs ys rule: subtag_less.induct)
  case (1 x xs y ys)
  then show ?case by auto
next
  case (2 ys)
  show ?case by (cases ys) simp_all
next
  case (3 v va)
  show ?case by simp
qed

lemma getlines_no_sep: "sep \<notin> set s \<Longrightarrow> getlines sep s = (if s = [] then [] else [s])"
proof (cases s)
  case Nil
  then show ?thesis by simp
next
  case (Cons c cs)
  assume "sep \<notin> set s"
  then have "takeWhile (\<lambda>x. x \<noteq> sep) (c # cs) = c # cs"
      and "dropWhile (\<lambda>x. x \<noteq> sep) (c # cs) = []"
    unfolding Cons by (auto simp: takeWhile_eq_all_conv)
  with getlines.simps(2) [of sep c cs] have "getlines sep (c # cs) = [c # cs]"
    by (simp only: drop_Nil getlines.simps(1))
  then show ?thesis unfolding Cons by simp
qed

lemma split_no_sep:
  "sep \<notin> set s \<Longrightarrow> split s sep = (if s = [] then Some [] else map_option (\<lambda>t. [t]) (trim s))"
  by (cases "trim s") (simp_all add: split_def getlines_no_sep)

lemma qvalue_less_flat_cases:
  assumes "CHR ''/'' \<notin> set (qvalue_value a)" and "CHR ''/'' \<notin> set (qvalue_value b)"
      and "qvalue_less a b = Some True"
  obtains (Q) "q a < q b"
    | (A) "q a = q b" "qvalue_value a = qvalue_value b"
          "length (attributes a) < length (attributes b)"
    | (Z) "q a = q b" "qvalue_value a = []" "qvalue_value b \<noteq> []" "trim (qvalue_value b) \<noteq> None"
    | (T) ta tb where "q a = q b" "qvalue_value a \<noteq> []" "qvalue_value b \<noteq> []"
          "trim (qvalue_value a) \<noteq> None" "trim (qvalue_value b) \<noteq> None"
          "split (qvalue_value a) (CHR ''-'') = Some ta"
          "split (qvalue_value b) (CHR ''-'') = Some tb" "subtag_less ta tb"
  using assms(3)
  unfolding qvalue_less_def split_no_sep [OF assms(1)] split_no_sep [OF assms(2)] qvalue_string_def
  by (auto split: if_splits Option.bind_splits)

lemma qvalue_less_Q: "q a < q b \<Longrightarrow> qvalue_less a b = Some True"
  by (simp add: qvalue_less_def)

lemma qvalue_less_A:
  "q a = q b \<Longrightarrow> qvalue_value a = qvalue_value b \<Longrightarrow>
   length (attributes a) < length (attributes b) \<Longrightarrow> qvalue_less a b = Some True"
  by (simp add: qvalue_less_def)

lemma qvalue_less_Z:
  assumes "CHR ''/'' \<notin> set (qvalue_value b)"
      and "q a = q b" "qvalue_value a = []" "qvalue_value b \<noteq> []" "trim (qvalue_value b) \<noteq> None"
  shows "qvalue_less a b = Some True"
  using assms(2-) unfolding qvalue_less_def split_no_sep [OF assms(1)]
  by (auto simp: split_def)

lemma qvalue_less_T:
  assumes "CHR ''/'' \<notin> set (qvalue_value a)" and "CHR ''/'' \<notin> set (qvalue_value b)"
      and "q a = q b" "qvalue_value a \<noteq> []" "qvalue_value b \<noteq> []"
          "trim (qvalue_value a) \<noteq> None" "trim (qvalue_value b) \<noteq> None"
          "split (qvalue_value a) (CHR ''-'') = Some ta"
          "split (qvalue_value b) (CHR ''-'') = Some tb" "subtag_less ta tb"
  shows "qvalue_less a b = Some True"
  using assms(3-) unfolding qvalue_less_def split_no_sep [OF assms(1)] split_no_sep [OF assms(2)]
  by auto

lemma qvalue_less_q_le: "qvalue_less a b = Some True \<Longrightarrow> q a \<le> q b"
  by (auto simp: qvalue_less_def split: if_splits)

lemma qvalue_less_primary:
  "q a < q b \<Longrightarrow> qvalue_less a b = Some True \<and> qvalue_less b a = Some False"
  by (simp add: qvalue_less_def)

lemma qvalue_less_irrefl:
  assumes na: "CHR ''/'' \<notin> set (qvalue_value a)"
  shows "qvalue_less a a \<noteq> Some True"
proof
  assume aa: "qvalue_less a a = Some True"
  then show False
    by (cases rule: qvalue_less_flat_cases [OF na na]) (auto simp: subtag_less_iff)
qed

lemma qvalue_less_asym:
  assumes na: "CHR ''/'' \<notin> set (qvalue_value a)" and nb: "CHR ''/'' \<notin> set (qvalue_value b)"
      and ab: "qvalue_less a b = Some True"
  shows "qvalue_less b a \<noteq> Some True"
proof
  assume ba: "qvalue_less b a = Some True"
  from qvalue_less_q_le [OF ab] qvalue_less_q_le [OF ba] have qq: "q a = q b" by simp
  from na nb ab show False
  proof (cases rule: qvalue_less_flat_cases)
    case Q
    with qq show False by simp
  next
    case A
    note abA = A
    from ba show False
      by (cases rule: qvalue_less_flat_cases [OF nb na])
         (use abA qq in \<open>auto simp: subtag_less_iff\<close>)
  next
    case Z
    note abZ = Z
    from ba show False
      by (cases rule: qvalue_less_flat_cases [OF nb na])
         (use abZ qq in \<open>auto simp: subtag_less_iff\<close>)
  next
    case (T ta tb)
    note abT = T
    from ba show False
      by (cases rule: qvalue_less_flat_cases [OF nb na])
         (use abT qq in \<open>auto simp: subtag_less_iff\<close>)
  qed
qed

lemma qvalue_less_trans:
  assumes na: "CHR ''/'' \<notin> set (qvalue_value a)" and nb: "CHR ''/'' \<notin> set (qvalue_value b)"
      and nc: "CHR ''/'' \<notin> set (qvalue_value c)"
      and ab: "qvalue_less a b = Some True" and bc: "qvalue_less b c = Some True"
  shows "qvalue_less a c = Some True"
proof (cases "q a < q c")
  case True
  then show ?thesis by (rule qvalue_less_Q)
next
  case False
  with qvalue_less_q_le [OF ab] qvalue_less_q_le [OF bc]
  have qq: "q a = q b" "q b = q c" "q a = q c" by auto
  from na nb ab show ?thesis
  proof (cases rule: qvalue_less_flat_cases)
    case Q
    with qq show ?thesis by simp
  next
    case A
    note abA = A
    from nb nc bc show ?thesis
    proof (cases rule: qvalue_less_flat_cases)
      case Q
      with qq show ?thesis by simp
    next
      case A
      with abA qq show ?thesis by (intro qvalue_less_A) auto
    next
      case Z
      with abA qq show ?thesis by (intro qvalue_less_Z [OF nc]) auto
    next
      case (T tb tc)
      with abA qq show ?thesis
        by (intro qvalue_less_T [OF na nc, of tb tc]) auto
    qed
  next
    case Z
    note abZ = Z
    from nb nc bc show ?thesis
    proof (cases rule: qvalue_less_flat_cases)
      case Q
      with qq show ?thesis by simp
    next
      case A
      with abZ qq show ?thesis by (intro qvalue_less_Z [OF nc]) auto
    next
      case Z
      with abZ show ?thesis by simp
    next
      case (T tb tc)
      with abZ qq show ?thesis by (intro qvalue_less_Z [OF nc]) auto
    qed
  next
    case (T ta tb)
    note abT = T
    from nb nc bc show ?thesis
    proof (cases rule: qvalue_less_flat_cases)
      case Q
      with qq show ?thesis by simp
    next
      case A
      with abT qq show ?thesis
        by (intro qvalue_less_T [OF na nc, of ta tb]) auto
    next
      case Z
      with abT show ?thesis by simp
    next
      case (T tb' tc)
      with abT have "subtag_less ta tc" by (auto simp: subtag_less_iff)
      with T abT qq show ?thesis
        by (intro qvalue_less_T [OF na nc, of ta tc]) auto
    qed
  qed
qed

lemma qvalue_samples:
  "qvalue ''en'' = Some qv_en" "qvalue ''en-US'' = Some qv_en_US" "qvalue ''fr'' = Some qv_fr"
  "qvalue ''en;q=0.5'' = Some qv_en_half" "qvalue ''text/*'' = Some qv_text_any"
  "qvalue ''*/*'' = Some qv_any" "qvalue ''text/*;a'' = Some qv_text_any_a"
  "qvalue ''en;q=1;a'' = Some qv_en_a" "qvalue ''en;q=1;b'' = Some qv_en_b"
  by code_simp+

text \<open>
  C4. \<^verbatim>\<open>operator<\<close> is the comparator of the \<^verbatim>\<open>std::set\<close> of qvalues, which asks for a strict
  order. In the branch for two values of the same main type it returns
  \<^verbatim>\<open>sa[1] == "*"\<close> and never looks at \<^verbatim>\<open>sb[1]\<close>, unlike the branch before it, which returns
  \<^verbatim>\<open>sb[0] != "*"\<close>. So the value \<^verbatim>\<open>text/*\<close> is smaller than itself, and \<^verbatim>\<open>text/*\<close> and
  \<^verbatim>\<open>text/*;a\<close> are each smaller than the other: the relation is neither irreflexive nor
  asymmetric.
\<close>

theorem qvalue_less_not_irreflexive:
  "qvalue ''text/*'' = Some qv_text_any
   \<and> qvalue_less qv_text_any qv_text_any = Some True
   \<and> qvalue ''text/*;a'' = Some qv_text_any_a
   \<and> qvalue_less qv_text_any qv_text_any_a = Some True
   \<and> qvalue_less qv_text_any_a qv_text_any = Some True"
  by code_simp

text \<open>
  The relation does not compare the extensions: the two distinct values parsed from
  \<^verbatim>\<open>en;q=1;a\<close> and \<^verbatim>\<open>en;q=1;b\<close> are not ordered either way.
\<close>

lemma qvalue_less_extensions_unordered:
  "qvalue ''en;q=1;a'' = Some qv_en_a
   \<and> qvalue ''en;q=1;b'' = Some qv_en_b
   \<and> qv_en_a \<noteq> qv_en_b
   \<and> qvalue_less qv_en_a qv_en_b = Some False
   \<and> qvalue_less qv_en_b qv_en_a = Some False"
  by code_simp

text \<open>
  What holds of the relation: the quality is its primary key, ascending, and on values
  without a \<^verbatim>\<open>/\<close> (language tags and plain tokens) it is irreflexive, asymmetric and
  transitive.
\<close>

lemma qvalue_less_order:
  "(q a < q b \<longrightarrow> qvalue_less a b = Some True \<and> qvalue_less b a = Some False)
   \<and> (CHR ''/'' \<notin> set (qvalue_value a) \<longrightarrow> qvalue_less a a \<noteq> Some True)
   \<and> (CHR ''/'' \<notin> set (qvalue_value a) \<and> CHR ''/'' \<notin> set (qvalue_value b)
        \<and> qvalue_less a b = Some True \<longrightarrow> qvalue_less b a \<noteq> Some True)
   \<and> (CHR ''/'' \<notin> set (qvalue_value a) \<and> CHR ''/'' \<notin> set (qvalue_value b)
        \<and> CHR ''/'' \<notin> set (qvalue_value c)
        \<and> qvalue_less a b = Some True \<and> qvalue_less b c = Some True
        \<longrightarrow> qvalue_less a c = Some True)"
  using qvalue_less_primary [of a b] qvalue_less_irrefl [of a] qvalue_less_asym [of a b]
    qvalue_less_trans [of a b c]
  by blast

text \<open>
  The order at \<^verbatim>\<open>en;q=0.5\<close> below \<^verbatim>\<open>en\<close>, and at \<^verbatim>\<open>en\<close> below \<^verbatim>\<open>en-US\<close> below \<^verbatim>\<open>fr\<close>.
\<close>

lemma qvalue_less_order_example:
  "q qv_en_half < q qv_en
   \<and> qvalue_less qv_en_half qv_en = Some True \<and> qvalue_less qv_en qv_en_half = Some False
   \<and> CHR ''/'' \<notin> set (qvalue_value qv_en)
   \<and> CHR ''/'' \<notin> set (qvalue_value qv_en_US)
   \<and> CHR ''/'' \<notin> set (qvalue_value qv_fr)
   \<and> qvalue_less qv_en qv_en \<noteq> Some True
   \<and> qvalue_less qv_en qv_en_US = Some True
   \<and> qvalue_less qv_en_US qv_en \<noteq> Some True
   \<and> qvalue_less qv_en_US qv_fr = Some True
   \<and> qvalue_less qv_en qv_fr = Some True"
proof -
  have h0: "q qv_en_half < q qv_en"
    by (simp add: qv_en_half_def qv_en_def)
  have h1: "CHR ''/'' \<notin> set (qvalue_value qv_en)"
    by (simp add: qv_en_def)
  have h2: "CHR ''/'' \<notin> set (qvalue_value qv_en_US)"
    by (simp add: qv_en_US_def)
  have h3: "CHR ''/'' \<notin> set (qvalue_value qv_fr)"
    by (simp add: qv_fr_def)
  have h4: "qvalue_less qv_en qv_en_US = Some True"
    by code_simp
  have h5: "qvalue_less qv_en_US qv_fr = Some True"
    by code_simp
  note r1 = qvalue_less_order [of qv_en_half qv_en qv_en]
  note r2 = qvalue_less_order [of qv_en qv_en_US qv_fr]
  from h0 r1 have c1: "qvalue_less qv_en_half qv_en = Some True \<and> qvalue_less qv_en qv_en_half = Some False"
    by blast
  from h1 r2 have c2: "qvalue_less qv_en qv_en \<noteq> Some True"
    by blast
  from h1 h2 h4 r2 have c3: "qvalue_less qv_en_US qv_en \<noteq> Some True"
    by blast
  from h1 h2 h3 h4 h5 r2 have c4: "qvalue_less qv_en qv_fr = Some True"
    by blast
  from h0 h1 h2 h3 h4 h5 c1 c2 c3 c4 show ?thesis
    by blast
qed

section \<open>Properties of the constructor of qvalue\<close>

lemma fold_step_empty:
  "qvalue_value v = [] \<Longrightarrow>
   fold qvalue_step segs v =
     (case dropWhile (\<lambda>s. s = []) segs of [] \<Rightarrow> v
      | s # rest \<Rightarrow> fold qvalue_step rest (v\<lparr>qvalue_value := s\<rparr>))"
proof (induction segs arbitrary: v)
  case Nil
  then show ?case by simp
next
  case (Cons s segs)
  show ?case
  proof (cases "s = []")
    case True
    with Cons.prems have "qvalue_step s v = v" by (simp add: qvalue_step_def)
    with Cons True show ?thesis by simp
  next
    case False
    from Cons.prems have "qvalue_step s v = v\<lparr>qvalue_value := s\<rparr>"
      by (simp add: qvalue_step_def)
    with False show ?thesis by simp
  qed
qed

lemma fold_step_no_q:
  "qvalue_value v \<noteq> [] \<Longrightarrow> q v = - 1 \<Longrightarrow> \<forall>s\<in>set rest. regex_match s rx = None \<Longrightarrow>
   q (fold qvalue_step rest v) = - 1 \<and> qvalue_value (fold qvalue_step rest v) = qvalue_value v"
proof (induction rest arbitrary: v)
  case Nil
  then show ?case by simp
next
  case (Cons s rest)
  let ?v = "qvalue_step s v"
  from Cons.prems have st: "?v = v\<lparr>attributes := set_insert s (attributes v)\<rparr>"
    by (simp add: qvalue_step_def)
  then have "qvalue_value ?v \<noteq> []" "q ?v = - 1" "qvalue_value ?v = qvalue_value v"
    using Cons.prems by simp_all
  with Cons.IH [of ?v] Cons.prems show ?case by simp
qed

text \<open>
  C5. The empty string has no segment at all, so none that is a \<^verbatim>\<open>q=\<close> parameter, and its
  quality is 0, not 1000.
\<close>

theorem qvalue_empty_counterexample:
  "split [] (CHR '';'') = Some [] \<and> map_option q (qvalue []) = Some 0"
  by code_simp

text \<open>
  C5, as the program has it: the first segment that is not empty becomes the value, and
  the segments after it are the ones that the constructor tests against the pattern of
  \<^verbatim>\<open>q=\<close>. For every input that \<^verbatim>\<open>split\<close> accepts and in which none of these matches the
  pattern, the constructor returns a qvalue, whose quality is 1000 when its value is not
  empty and 0 when its value is empty.
\<close>

theorem qvalue_default_quality:
  assumes "split val (CHR '';'') = Some segs"
      and "\<forall>s\<in>set (tl (dropWhile (\<lambda>s. s = []) segs)). regex_match s rx = None"
  shows "\<exists>v. qvalue val = Some v
           \<and> (qvalue_value v \<noteq> [] \<longrightarrow> q v = 1000)
           \<and> (qvalue_value v = [] \<longrightarrow> q v = 0)"
proof (cases "dropWhile (\<lambda>s. s = []) segs")
  case Nil
  have "qvalue_value qvalue_init = []" by (simp add: qvalue_init_def)
  from fold_step_empty [OF this, of segs]
  have "fold qvalue_step segs qvalue_init = qvalue_init"
    unfolding Nil by simp
  with assms(1) show ?thesis
    by (simp add: qvalue_def qvalue_finish_def qvalue_init_def)
next
  case (Cons s rest)
  let ?v = "qvalue_init\<lparr>qvalue_value := s\<rparr>"
  from Cons have "s \<in> set (dropWhile (\<lambda>s. s = []) segs)" by simp
  have "s \<noteq> []" using hd_dropWhile [of "\<lambda>s. s = []" segs] Cons by simp
  have "qvalue_value qvalue_init = []" by (simp add: qvalue_init_def)
  from fold_step_empty [OF this, of segs]
  have f: "fold qvalue_step segs qvalue_init = fold qvalue_step rest ?v"
    unfolding Cons by simp
  from assms(2) Cons have "\<forall>s\<in>set rest. regex_match s rx = None" by simp
  with fold_step_no_q [of ?v rest] \<open>s \<noteq> []\<close>
  have "q (fold qvalue_step rest ?v) = - 1" "qvalue_value (fold qvalue_step rest ?v) = s"
    by (simp_all add: qvalue_init_def)
  with f assms(1) \<open>s \<noteq> []\<close> show ?thesis
    by (simp add: qvalue_def qvalue_finish_def)
qed

text \<open>The default at \<^verbatim>\<open>text/html;level=1\<close>.\<close>

theorem qvalue_default_quality_witness:
  "split ''text/html;level=1'' (CHR '';'') = Some [''text/html'', ''level=1'']
   \<and> tl (dropWhile (\<lambda>s. s = []) [''text/html'', ''level=1'']) = [''level=1'']
   \<and> regex_match ''level=1'' rx = None
   \<and> (\<exists>v. qvalue ''text/html;level=1'' = Some v \<and> qvalue_value v = ''text/html'' \<and> q v = 1000)"
proof -
  have h1: "split ''text/html;level=1'' (CHR '';'') = Some [''text/html'', ''level=1'']"
    by code_simp
  have t: "tl (dropWhile (\<lambda>s. s = []) [''text/html'', ''level=1'']) = [''level=1'']"
    by simp
  have n: "regex_match ''level=1'' rx = None"
    by code_simp
  from t n have h2:
    "\<forall>s\<in>set (tl (dropWhile (\<lambda>s. s = []) [''text/html'', ''level=1''])). regex_match s rx = None"
    by simp
  have h3: "map_option qvalue_value (qvalue ''text/html;level=1'') = Some ''text/html''"
    by code_simp
  from qvalue_default_quality [OF h1 h2] h3 have
    "\<exists>v. qvalue ''text/html;level=1'' = Some v \<and> qvalue_value v = ''text/html'' \<and> q v = 1000"
    by auto
  with h1 t n show ?thesis
    by blast
qed

section \<open>Properties of the status line\<close>

lemma statusLine_parse_no_match:
  assumes "regex_match line stat = None"
  shows "code (statusLine_parse line) = 0"
    and "\<not> valid (statusLine_parse line)"
    and "statusLine_string (statusLine_parse line) = ''HTTP/1.1 500 Bad Status Line'' @ CRLF"
  using assms
  by (simp_all add: statusLine_parse_def statusLine_default_def valid_def statusLine_string_def)

lemma statusLine_parse_not_a_status_line:
  "regex_match ''not a status line'' stat = None
   \<and> \<not> valid (statusLine_parse ''not a status line'')
   \<and> statusLine_string (statusLine_parse ''not a status line'') =
       ''HTTP/1.1 500 Bad Status Line'' @ CRLF"
  by code_simp

text \<open>
  C6. The parsing constructor is documented to accept \<^verbatim>\<open>HTTP/1.0\<close> and \<^verbatim>\<open>HTTP/1.1\<close> status
  lines only, and the pattern of the specification has a literal dot in the protocol. The
  dot of the program's pattern is not escaped and stands for any character: the line
  \<^verbatim>\<open>HTTP/1x1 200 OK\<close> does not match the pattern of the specification, and the constructor
  accepts it as a valid status line of protocol \<^verbatim>\<open>HTTP/1x1\<close>.
\<close>

theorem statusLine_parse_accepts_other_protocol:
  "regex_match ''HTTP/1x1 200 OK'' stat_spec = None
   \<and> statusLine_parse ''HTTP/1x1 200 OK'' =
       \<lparr>code = 200, protocol = ''HTTP/1x1'', description = ''OK''\<rparr>
   \<and> valid (statusLine_parse ''HTTP/1x1 200 OK'')"
  by code_simp

lemma of_char_digit_char: "d < 10 \<Longrightarrow> of_char (digit_char d) = 48 + d"
  by (simp add: digit_char_def)

lemma cls_match_digit_iff: "cls_match digit x \<longleftrightarrow> 48 \<le> (of_char x :: nat) \<and> (of_char x :: nat) \<le> 57"
  by (simp add: less_eq_char_def)

lemma not_isspace_if: "(of_char x :: nat) \<notin> {32, 9, 10, 11, 12, 13} \<Longrightarrow> \<not> isspace x"
  by (auto simp: isspace_def)

lemma digit_char_digit: "d < 10 \<Longrightarrow> cls_match digit (digit_char d)"
  by (simp only: cls_match_digit_iff of_char_digit_char) simp

lemma digit_char_not_space: "d < 10 \<Longrightarrow> \<not> isspace (digit_char d)"
  by (rule not_isspace_if) (simp add: of_char_digit_char)

lemma digit_val_digit_char: "d < 10 \<Longrightarrow> digit_val (digit_char d) = int d"
  by (simp add: digit_val_def of_char_digit_char)

lemma show_nat_small: "n < 10 \<Longrightarrow> show_nat n = [digit_char n]"
  by (subst show_nat.simps) simp

lemma show_nat_big: "10 \<le> n \<Longrightarrow> show_nat n = show_nat (n div 10) @ [digit_char (n mod 10)]"
  by (subst show_nat.simps) simp

lemma show_nat_3:
  assumes "100 \<le> c" "c < 1000"
  shows "show_nat c = [digit_char (c div 100), digit_char (c div 10 mod 10), digit_char (c mod 10)]"
proof -
  have e: "c div 10 div 10 = c div 100" by (simp add: div_mult2_eq)
  from assms have "10 \<le> c" "10 \<le> c div 10" "c div 10 div 10 < 10" by simp_all
  then show ?thesis
    by (simp add: show_nat_big [of c] show_nat_big [of "c div 10"] show_nat_small e)
qed

lemma decimal_3:
  "decimal [a, b, c] = 100 * digit_val a + 10 * digit_val b + digit_val c"
  by (simp add: decimal_def)

lemma seq_mem:
  "m \<in> set (rx_run a st) \<Longrightarrow> x \<in> set (rx_run b m) \<Longrightarrow> x \<in> set (rx_run (Seq a b) st)"
  by auto

lemma rep_mem:
  assumes "lo \<le> k" and "k \<le> length (takeWhile (cls_match c) s)"
  shows "(drop k s, g) \<in> set (rx_run (Rep c lo None) (s, g))"
proof -
  let ?n = "length (takeWhile (cls_match c) s)"
  from assms have "k \<in> set (rev [lo ..< Suc ?n])"
    by (simp del: upt_Suc)
  then have "(drop k s, g) \<in> (\<lambda>k. (drop k s, g)) ` set (rev [lo ..< Suc ?n])"
    by (rule imageI)
  then show ?thesis
    by (simp add: Let_def del: upt_Suc set_rev set_upt)
qed

lemma grp_mem:
  "(r, g') \<in> set (rx_run a (s, g)) \<Longrightarrow>
   (r, g'(i \<mapsto> take (length s - length r) s)) \<in> set (rx_run (Grp i a) (s, g))"
  by (auto simp: image_iff intro!: bexI [of _ "(r, g')"])

lemma tail_groups:
  "(r, g') \<in> set (rx_run status_tail (s, g)) \<Longrightarrow> g' 1 = g 1 \<and> g' 2 = g 2"
  by (auto simp: Let_def)

lemma tail_full:
  assumes "\<forall>x\<in>set desc. x \<noteq> CHR 0x0A \<and> x \<noteq> CHR 0x0D"
  shows "([], g(3 \<mapsto> desc)) \<in> set (rx_run status_tail (CHR '' '' # desc @ CRLF, g))"
proof -
  let ?s = "CHR '' '' # desc @ CRLF"
  have "1 \<le> length (takeWhile (cls_match Space) ?s)"
    by (simp add: isspace_def)
  from rep_mem [OF le_refl this, of g]
  have 1: "(desc @ CRLF, g) \<in> set (rx_run (Rep Space 1 None) (?s, g))" by simp
  have "takeWhile (cls_match Dot) (desc @ CRLF) = desc"
    using assms by (simp add: takeWhile_append2)
  then have "length desc \<le> length (takeWhile (cls_match Dot) (desc @ CRLF))" by simp
  from rep_mem [OF le0 this, of g]
  have "(CRLF, g) \<in> set (rx_run (Rep Dot 0 None) (desc @ CRLF, g))" by simp
  from grp_mem [OF this, of 3]
  have 2: "(CRLF, g(3 \<mapsto> desc)) \<in> set (rx_run (Grp 3 (Rep Dot 0 None)) (desc @ CRLF, g))"
    by simp
  have "2 \<le> length (takeWhile (cls_match Space) CRLF)" by (simp add: isspace_def)
  from rep_mem [OF le0 this, of "g(3 \<mapsto> desc)"]
  have 3: "([], g(3 \<mapsto> desc)) \<in> set (rx_run (Rep Space 0 None) (CRLF, g(3 \<mapsto> desc)))" by simp
  from seq_mem [OF 1 seq_mem [OF 2 3]] show ?thesis .
qed

lemma head_run:
  assumes v: "v = CHR ''0'' \<or> v = CHR ''1''"
    and d: "cls_match digit d1" "cls_match digit d2" "cls_match digit d3"
    and ns: "\<not> isspace d1"
  shows "rx_run stat (''HTTP/1.'' @ [v] @ '' '' @ [d1, d2, d3] @ CHR '' '' # rest, Map.empty) =
         rx_run status_tail (CHR '' '' # rest, [1 \<mapsto> ''HTTP/1.'' @ [v], 2 \<mapsto> [d1, d2, d3]])"
proof -
  have sp: "isspace (CHR '' '')" by (simp add: isspace_def)
  have nd: "\<not> cls_match digit (CHR '' '')" by simp
  have v': "cls_match (Range (CHR ''0'') (CHR ''1'')) v" using v by auto
  have g1: "rx_run (Grp 1 (lits ''HTTP/1'' (Seq (Atom Dot) (Atom (Range (CHR ''0'') (CHR ''1''))))))
              (''HTTP/1.'' @ [v] @ '' '' @ [d1, d2, d3] @ CHR '' '' # rest, Map.empty) =
            [('' '' @ [d1, d2, d3] @ CHR '' '' # rest, [1 \<mapsto> ''HTTP/1.'' @ [v]])]"
    using v' by simp
  have s1: "rx_run (Rep Space 1 None) ('' '' @ [d1, d2, d3] @ CHR '' '' # rest, g) =
            [([d1, d2, d3] @ CHR '' '' # rest, g)]" for g
    using sp ns by (simp add: Let_def)
  have g2: "rx_run (Grp 2 (Rep digit 3 (Some 3))) ([d1, d2, d3] @ CHR '' '' # rest, g) =
            [(CHR '' '' # rest, g(2 \<mapsto> [d1, d2, d3]))]" for g
    using d nd by (simp add: Let_def del: cls_match.simps)
  show ?thesis
    unfolding stat_def by (simp only: rx_run.simps(3) g1 s1 g2 list.map concat.simps append_Nil2)
qed

lemma find_SomeD: "find P xs = Some x \<Longrightarrow> P x \<and> x \<in> set xs"
  by (induction xs) (auto split: if_splits)

lemma find_full:
  assumes "([], g0) \<in> set xs"
  obtains g' where "find (\<lambda>(rest, g). rest = []) xs = Some ([], g')" and "([], g') \<in> set xs"
proof -
  from assms have "find (\<lambda>(rest, g). rest = []) xs \<noteq> None"
    by (auto simp: find_None_iff)
  then obtain r g' where f: "find (\<lambda>(rest, g). rest = []) xs = Some (r, g')" by auto
  from find_SomeD [OF f] have "r = []" and "(r, g') \<in> set xs"
    by auto
  with f that show thesis by blast
qed

lemma dec_lin:
  fixes c :: nat
  assumes "c = 10 * X + Y" and "X = 10 * Z + W"
  shows "100 * Z + 10 * W + Y = c"
  using assms by simp

lemma dec_digits: "100 * (c div 100) + 10 * (c div 10 mod 10) + c mod 10 = (c::nat)"
proof (rule dec_lin)
  show "c = 10 * (c div 10) + c mod 10" by simp
  have "c div 10 div 10 = c div 100" by (simp add: div_mult2_eq)
  then show "c div 10 = 10 * (c div 100) + c div 10 mod 10"
    using div_mult_mod_eq [of "c div 10" 10] by simp
qed

lemma stoi_3:
  assumes "a < 10" "b < 10" "d < 10"
  shows "stoi [digit_char a, digit_char b, digit_char d] = Some (int (100 * a + 10 * b + d))"
  using assms
  by (simp add: stoi_def digit_char_digit decimal_3 digit_val_digit_char del: cls_match.simps)

text \<open>
  C7. For every code \<open>c\<close> from 100 to 599, the status line made from \<open>c\<close> and the protocol
  \<^verbatim>\<open>HTTP/1.1\<close> (the default) or \<^verbatim>\<open>HTTP/1.0\<close> is valid, and parsing its wire form gives back
  the code and the protocol. The description comes from the table \<^verbatim>\<open>http::status\<close>, taken
  here as any table whose description of \<open>c\<close> holds no CR and no LF.
\<close>

theorem statusLine_roundtrip:
  assumes c: "100 \<le> c" "c < 600"
      and p: "p = ''HTTP/1.0'' \<or> p = ''HTTP/1.1''"
      and nl: "\<forall>x\<in>set (statusDescription status c). x \<noteq> CHR 0x0A \<and> x \<noteq> CHR 0x0D"
  shows "valid (statusLine_make status c p)
         \<and> code (statusLine_parse (statusLine_string (statusLine_make status c p))) = c
         \<and> protocol (statusLine_parse (statusLine_string (statusLine_make status c p))) = p"
proof -
  let ?l = "statusLine_make status c p"
  let ?desc = "statusDescription status c"
  let ?a = "c div 100" and ?b = "c div 10 mod 10" and ?d = "c mod 10"
  let ?ds = "[digit_char ?a, digit_char ?b, digit_char ?d]"
  have v: "valid ?l" using c by (simp add: valid_def statusLine_make_def)
  from p obtain x where x: "x = CHR ''0'' \<or> x = CHR ''1''" and px: "p = ''HTTP/1.'' @ [x]"
    by auto
  from c have lt: "?a < 10" "?b < 10" "?d < 10" by simp_all
  have sn: "show_nat c = ?ds" using c by (simp add: show_nat_3)
  have wire: "statusLine_string ?l =
      ''HTTP/1.'' @ [x] @ '' '' @ ?ds @ CHR '' '' # (?desc @ CRLF)"
    using v by (simp add: statusLine_string_def statusLine_make_def sn px)
  let ?g = "[1 \<mapsto> ''HTTP/1.'' @ [x], 2 \<mapsto> ?ds]"
  have run: "rx_run stat (statusLine_string ?l, Map.empty) =
             rx_run status_tail (CHR '' '' # (?desc @ CRLF), ?g)"
    unfolding wire
    by (rule head_run [OF x digit_char_digit [OF lt(1)] digit_char_digit [OF lt(2)]
          digit_char_digit [OF lt(3)] digit_char_not_space [OF lt(1)]])
  from tail_full [OF nl, of ?g]
  obtain g' where f: "find (\<lambda>(rest, g). rest = []) (rx_run status_tail (CHR '' '' # (?desc @ CRLF), ?g))
                        = Some ([], g')"
      and m: "([], g') \<in> set (rx_run status_tail (CHR '' '' # (?desc @ CRLF), ?g))"
    by (rule find_full)
  from tail_groups [OF m] have g1: "g' 1 = Some p" and g2: "g' 2 = Some ?ds"
    by (simp_all add: px)
  have "regex_match (statusLine_string ?l) stat =
        map_option snd (find (\<lambda>(rest, g). rest = []) (rx_run stat (statusLine_string ?l, Map.empty)))"
    by (simp only: regex_match_def)
  also have "\<dots> = Some g'"
    by (simp only: run f option.map snd_conv)
  finally have rm: "regex_match (statusLine_string ?l) stat = Some g'" .
  have dec: "100 * ?a + 10 * ?b + ?d = c" by (rule dec_digits)
  have "stoi ?ds = Some (int c)"
    using stoi_3 [OF lt] by (simp only: dec)
  then have "code (statusLine_parse (statusLine_string ?l)) = c"
    and "protocol (statusLine_parse (statusLine_string ?l)) = p"
    using g1 g2 by (simp_all add: statusLine_parse_def rm sub_match_def)
  with v show ?thesis by simp
qed

text \<open>The round trip at 404 with the table of the tests.\<close>

theorem statusLine_roundtrip_witness:
  "(100::nat) \<le> 404 \<and> (404::nat) < 600
   \<and> statusDescription status_of_tests 404 = ''Not Found''
   \<and> valid (statusLine_make status_of_tests 404 ''HTTP/1.1'')
   \<and> code (statusLine_parse (statusLine_string (statusLine_make status_of_tests 404 ''HTTP/1.1''))) = 404
   \<and> protocol (statusLine_parse (statusLine_string (statusLine_make status_of_tests 404 ''HTTP/1.1'')))
       = ''HTTP/1.1''"
proof -
  have a: "(100::nat) \<le> 404" and b: "(404::nat) < 600"
    by simp_all
  have p: "''HTTP/1.1'' = ''HTTP/1.0'' \<or> ''HTTP/1.1'' = ''HTTP/1.1''"
    by simp
  have d: "statusDescription status_of_tests 404 = ''Not Found''"
    by (simp add: statusDescription_def status_of_tests_def)
  have n: "\<forall>x\<in>set (statusDescription status_of_tests 404). x \<noteq> CHR 0x0A \<and> x \<noteq> CHR 0x0D"
    unfolding d by simp
  note r = statusLine_roundtrip [OF a b p n]
  from a b d r show ?thesis
    by blast
qed

section \<open>Properties of the session data\<close>

text \<open>
  C8. \<^verbatim>\<open>queries()\<close> is the sum of the two counters, in the arithmetic of \<^verbatim>\<open>std::size_t\<close>, and
  not their difference: the session of the test, with one request and two replies, has
  three.
\<close>

theorem queries_sum:
  "queries v = requests v + replies v
   \<and> unat (queries v) = (unat (requests v) + unat (replies v)) mod 2 ^ 64
   \<and> queries \<lparr>session_status = stRequest, requests = 1, replies = 2, contentLength = 500,
        content = ''foo''\<rparr> = 3
   \<and> queries \<lparr>session_status = stRequest, requests = 1, replies = 2, contentLength = 500,
        content = ''foo''\<rparr> \<noteq> 1 - 2"
  by (simp add: queries_def unat_word_ariths)

lemma generateReply_informational: "100 \<le> c \<and> c \<le> 199 \<Longrightarrow>
      generateReply st c h b =
        statusLine_string (statusLine_make st (nat c) ''HTTP/1.1'') @ CRLF"
proof -
  assume a: "100 \<le> c \<and> c \<le> 199"
  then have "c mod 2 ^ 32 = c" by simp
  with a show ?thesis unfolding generateReply_def by (simp only: if_True simp_thms)
qed

lemma generateReply_error: "400 \<le> c \<Longrightarrow>
      generateReply st c h b =
        statusLine_string (statusLine_make st (nat (c mod 2 ^ 32)) ''HTTP/1.1'') @
        (''Connection: close'' @ CRLF) @
        ''Content-Length: '' @ show_nat (length b) @ CRLF @
        concat (map header_line h) @ CRLF @ b"
proof -
  assume a: "400 \<le> c"
  then have n: "\<not> (100 \<le> c \<and> c \<le> 199)" by simp
  show ?thesis unfolding generateReply_def by (simp only: a n if_True if_False)
qed

lemma generateReply_other: "\<not> (100 \<le> c \<and> c \<le> 199) \<Longrightarrow> c < 400 \<Longrightarrow>
      generateReply st c h b =
        statusLine_string (statusLine_make st (nat (c mod 2 ^ 32)) ''HTTP/1.1'') @
        ''Content-Length: '' @ show_nat (length b) @ CRLF @
        concat (map header_line h) @ CRLF @ b"
proof -
  assume n: "\<not> (100 \<le> c \<and> c \<le> 199)" and "c < 400"
  then have a: "\<not> 400 \<le> c" by simp
  show ?thesis unfolding generateReply_def by (simp only: a n if_False append_Nil)
qed

text \<open>
  C9. \<^verbatim>\<open>generateReply\<close>: for an informational status (100 to 199) the reply is the status
  line and the blank line, whatever the headers and the body are; for a status of 400
  or more the line \<^verbatim>\<open>Connection: close\<close> comes first after the status line; and for every
  status that is not informational the \<^verbatim>\<open>Content-Length\<close> of the body, also when it is 0,
  comes before the headers of the caller, the blank line and the body.
\<close>

theorem generateReply_shape:
  "(100 \<le> c \<and> c \<le> 199 \<longrightarrow>
      generateReply st c h b =
        statusLine_string (statusLine_make st (nat c) ''HTTP/1.1'') @ CRLF)
   \<and> (400 \<le> c \<longrightarrow>
      generateReply st c h b =
        statusLine_string (statusLine_make st (nat (c mod 2 ^ 32)) ''HTTP/1.1'') @
        (''Connection: close'' @ CRLF) @
        ''Content-Length: '' @ show_nat (length b) @ CRLF @
        concat (map header_line h) @ CRLF @ b)
   \<and> (\<not> (100 \<le> c \<and> c \<le> 199) \<and> c < 400 \<longrightarrow>
      generateReply st c h b =
        statusLine_string (statusLine_make st (nat (c mod 2 ^ 32)) ''HTTP/1.1'') @
        ''Content-Length: '' @ show_nat (length b) @ CRLF @
        concat (map header_line h) @ CRLF @ b)"
  using generateReply_informational [of c st h b] generateReply_error [of c st h b]
    generateReply_other [of c st h b]
  by blast

text \<open>The three shapes at the replies that session.cpp expects for 100, 404 and 200.\<close>

theorem generateReply_shape_witness:
  "((100::int) \<le> 100 \<and> (100::int) \<le> 199)
   \<and> generateReply status_of_tests 100 [] ''ignored'' = (''HTTP/1.1 100 Continue'' @ CRLF) @ CRLF
   \<and> (400::int) \<le> 404
   \<and> generateReply status_of_tests 404 [] ''sorry'' =
       (''HTTP/1.1 404 Not Found'' @ CRLF) @ (''Connection: close'' @ CRLF) @
       ''Content-Length: '' @ ''5'' @ CRLF @ [] @ CRLF @ ''sorry''
   \<and> (\<not> ((100::int) \<le> 200 \<and> (200::int) \<le> 199) \<and> (200::int) < 400)
   \<and> generateReply status_of_tests 200 [] ''foo'' =
       (''HTTP/1.1 200 OK'' @ CRLF) @
       ''Content-Length: '' @ ''3'' @ CRLF @ [] @ CRLF @ ''foo''"
proof -
  have h1: "(100::int) \<le> 100 \<and> (100::int) \<le> 199"
    by simp
  have h2: "(400::int) \<le> 404"
    by simp
  have h3: "\<not> ((100::int) \<le> 200 \<and> (200::int) \<le> 199) \<and> (200::int) < 400"
    by simp
  have l1: "statusLine_string (statusLine_make status_of_tests (nat 100) ''HTTP/1.1'') =
            ''HTTP/1.1 100 Continue'' @ CRLF"
    by code_simp
  have l2: "statusLine_string (statusLine_make status_of_tests (nat (404 mod 2 ^ 32)) ''HTTP/1.1'') =
            ''HTTP/1.1 404 Not Found'' @ CRLF"
    by code_simp
  have l3: "statusLine_string (statusLine_make status_of_tests (nat (200 mod 2 ^ 32)) ''HTTP/1.1'') =
            ''HTTP/1.1 200 OK'' @ CRLF"
    by code_simp
  have n1: "show_nat (length ''sorry'') = ''5''" and n2: "show_nat (length ''foo'') = ''3''"
    by code_simp+
  have m: "concat (map header_line []) = []"
    by simp
  from h1 generateReply_shape [of 100 status_of_tests "[]" "''ignored''"]
  have r1: "generateReply status_of_tests 100 [] ''ignored'' =
            statusLine_string (statusLine_make status_of_tests (nat 100) ''HTTP/1.1'') @ CRLF"
    by blast
  from h2 generateReply_shape [of 404 status_of_tests "[]" "''sorry''"]
  have r2: "generateReply status_of_tests 404 [] ''sorry'' =
        statusLine_string (statusLine_make status_of_tests (nat (404 mod 2 ^ 32)) ''HTTP/1.1'') @
        (''Connection: close'' @ CRLF) @
        ''Content-Length: '' @ show_nat (length ''sorry'') @ CRLF @
        concat (map header_line []) @ CRLF @ ''sorry''"
    by blast
  from h3 generateReply_shape [of 200 status_of_tests "[]" "''foo''"]
  have r3: "generateReply status_of_tests 200 [] ''foo'' =
        statusLine_string (statusLine_make status_of_tests (nat (200 mod 2 ^ 32)) ''HTTP/1.1'') @
        ''Content-Length: '' @ show_nat (length ''foo'') @ CRLF @
        concat (map header_line []) @ CRLF @ ''foo''"
    by blast
  from r1 have e1: "generateReply status_of_tests 100 [] ''ignored'' =
      (''HTTP/1.1 100 Continue'' @ CRLF) @ CRLF"
    by (simp only: l1)
  from r2 have e2: "generateReply status_of_tests 404 [] ''sorry'' =
       (''HTTP/1.1 404 Not Found'' @ CRLF) @ (''Connection: close'' @ CRLF) @
       ''Content-Length: '' @ ''5'' @ CRLF @ [] @ CRLF @ ''sorry''"
    by (simp only: l2 n1 m)
  from r3 have e3: "generateReply status_of_tests 200 [] ''foo'' =
       (''HTTP/1.1 200 OK'' @ CRLF) @
       ''Content-Length: '' @ ''3'' @ CRLF @ [] @ CRLF @ ''foo''"
    by (simp only: l3 n2 m)
  from h1 h2 h3 e1 e2 e3 show ?thesis
    by blast
qed

end
